theory Spec2Isabelle
  imports Main "HOL-Library.AList"
begin

section \<open>The administration API of HFS (server/src/adminApis.ts)\<close>

text \<open>
  The TypeScript module is embedded as functions over an explicit world state.
  A handler of the source, \<^verbatim>\<open>(params, ctx) => result\<close>, becomes a function from
  the parameters, the request context and the world to an outcome and the new world.
  Objects that the handlers read are records; JSON-like values that are only passed on
  are values of \<open>jsval\<close>.
\<close>

subsection \<open>Values\<close>

datatype jsval =
    JUndefined
  | JNull
  | JBool bool
  | JNum int
  | JStr string
  | JDate string
  | JNumber string
  | JObj "(string \<times> jsval) list"

text \<open>
  \<open>JDate s\<close> stands for \<^verbatim>\<open>new Date(s)\<close> and \<open>JNumber s\<close> for \<^verbatim>\<open>Number(s)\<close>:
  the conversions of the JavaScript runtime are kept symbolic. Numbers that the code
  compares (ports, counters) are integers.
\<close>

type_synonym obj = "(string \<times> jsval) list"

text \<open>\<^verbatim>\<open>Object.assign(target, source)\<close>: every own key of the source is written to the
  target, in the source's order.\<close>

definition Object_assign :: "('k \<times> 'v) list \<Rightarrow> ('k \<times> 'v) list \<Rightarrow> ('k \<times> 'v) list" where
  "Object_assign target source = fold (\<lambda>(k, v). AList.update k v) source target"

text \<open>Truthiness of a value that is a string or \<^verbatim>\<open>undefined\<close>.\<close>

fun truthy :: "string option \<Rightarrow> bool" where
  "truthy None = False"
| "truthy (Some s) = (s \<noteq> [])"

fun opt_str :: "string option \<Rightarrow> jsval" where
  "opt_str None = JUndefined"
| "opt_str (Some s) = JStr s"

fun opt_num :: "nat option \<Rightarrow> jsval" where
  "opt_num None = JUndefined"
| "opt_num (Some n) = JNum (int n)"

subsection \<open>Request contexts, connections, configuration\<close>

text \<open>
  A \<^verbatim>\<open>Koa.Context\<close>. The fields \<open>isLocalHost\<close> and \<open>account_admin\<close> hold the results
  of \<^verbatim>\<open>isLocalHost(ctx)\<close> (misc.ts) and of
  \<^verbatim>\<open>getFromAccount(ctx.state.account, a => a.admin)\<close> (perm.ts), two helpers that are not
  part of this module: the first says whether the request comes from the loopback
  interface, the second is the admin flag found for the authenticated account
  (\<^verbatim>\<open>undefined\<close> when there is none). \<open>res\<close> identifies the response object
  \<^verbatim>\<open>ctx.res\<close>.
\<close>

record Context =
  ip :: string
  path :: string
  fileSource :: "string option"
  aborted :: bool
  res :: nat
  isLocalHost :: bool
  proxiedFor :: "string option"
  account_admin :: "bool option"

record Socket =
  remoteAddress :: "string option"
  remotePort :: "nat option"
  remoteFamily :: "string option"
  ended :: bool

record Connection =
  socket :: Socket
  started :: string
  secure :: bool
  got :: int
  ctx :: "Context option"

text \<open>The configuration entries this module reads, with their TypeScript types, and
  the object of new values that \<^verbatim>\<open>setConfig\<close> takes (every key optional).\<close>

record config =
  port :: int
  https_port :: int
  localhost_admin :: bool
  disable_plugins :: "string list"
  other :: obj

record cfg_values =
  v_port :: "int option"
  v_https_port :: "int option"
  v_localhost_admin :: "bool option"
  v_disable_plugins :: "string list option"
  v_other :: obj

definition no_values :: cfg_values where
  "no_values = \<lparr>v_port = None, v_https_port = None, v_localhost_admin = None,
     v_disable_plugins = None, v_other = []\<rparr>"

text \<open>A server of \<^verbatim>\<open>getStatus()\<close>: whether it listens, its \<^verbatim>\<open>busy\<close> and \<^verbatim>\<open>error\<close>
  properties when the object has them, and the port of its address when it has one.\<close>

record Server =
  listening :: bool
  busy :: "jsval option"
  error :: "jsval option"
  address_port :: "nat option"

record Plugin =
  getData :: obj
  plugin_id :: string
  plugin_started :: jsval

text \<open>A logger of log.ts, with the name it is asked for by and the path of its file.\<close>

record Logger =
  logger_name :: string
  logger_path :: string

subsection \<open>Streams, the event bus and handlers\<close>

text \<open>The objects pushed on a \<^verbatim>\<open>Readable\<close> by this module:
  \<^verbatim>\<open>{add: rec}\<close>, \<^verbatim>\<open>{remove: [key]}\<close>, \<^verbatim>\<open>{update: [{search, change}]}\<close> and the
  string \<^verbatim>\<open>'init'\<close>.\<close>

datatype frame = Add jsval | Remove jsval | Update jsval jsval | Init

text \<open>The change object of a \<^verbatim>\<open>connectionUpdated\<close> event (\<^verbatim>\<open>Partial<Connection>\<close>): its
  \<^verbatim>\<open>ctx\<close> entry, if any, and its other entries.\<close>

record change =
  ch_ctx :: "Context option"
  ch_rest :: obj

text \<open>The events of the bus that this module listens to, with their arguments; the
  last one is the event that a logger emits, under its own name, for a new entry.\<close>

datatype event =
    connection Connection
  | connectionClosed Connection
  | connectionUpdated Connection change
  | pluginLoaded Plugin
  | pluginUnloaded string
  | pluginAvailableNoMore obj
  | pluginAvailable obj
  | logged string jsval

fun event_name :: "event \<Rightarrow> string" where
  "event_name (connection _) = ''connection''"
| "event_name (connectionClosed _) = ''connectionClosed''"
| "event_name (connectionUpdated _ _) = ''connectionUpdated''"
| "event_name (pluginLoaded _) = ''pluginLoaded''"
| "event_name (pluginUnloaded _) = ''pluginUnloaded''"
| "event_name (pluginAvailableNoMore _) = ''pluginAvailableNoMore''"
| "event_name (pluginAvailable _) = ''pluginAvailable''"
| "event_name (logged n _) = n"

text \<open>
  The functions that this module registers on the bus are closures over the list they
  feed; the list is identified by its stream. A closure is represented by the place of
  the source that creates it, together with the stream it captured.
\<close>

datatype closure =
    conn_add nat
  | conn_closed nat
  | conn_updated nat
  | plugin_loaded nat
  | plugin_unloaded nat
  | plugin_no_more nat
  | plugin_available nat
  | log_entry nat

fun captured :: "closure \<Rightarrow> nat" where
  "captured (conn_add s) = s"
| "captured (conn_closed s) = s"
| "captured (conn_updated s) = s"
| "captured (plugin_loaded s) = s"
| "captured (plugin_unloaded s) = s"
| "captured (plugin_no_more s) = s"
| "captured (plugin_available s) = s"
| "captured (log_entry s) = s"

type_synonym eventMap = "(string \<times> closure) list"

subsection \<open>The world\<close>

text \<open>
  Everything the handlers read or change:
  the configuration and the record of the calls of \<^verbatim>\<open>setConfig\<close>, the two servers of
  \<^verbatim>\<open>getStatus()\<close>, the connections of \<^verbatim>\<open>getConnections()\<close>, the plugins, the files
  written, the error code with which the file system refuses to write a path (\<open>None\<close>
  for a path that can be written), the loggers, the streams whose log file input was closed, the
  \<^verbatim>\<open>Readable\<close> streams created so far (a stream is the sequence of what was pushed
  on it), the listeners of the event bus in registration order, and the
  \<^verbatim>\<open>once('close', ...)\<close> listeners of the responses (each one an unsubscribe function,
  that is the event map it will deregister).
\<close>

record world =
  cfg :: config
  setConfig_calls :: "cfg_values list"
  httpSrv :: Server
  httpsSrv :: Server
  connections :: "Connection list"
  plugins :: "Plugin list"
  available_plugins :: "obj list"
  files :: "(string \<times> string) list"
  write_error :: "string \<Rightarrow> string option"
  loggers :: "Logger list"
  inputs_closed :: "nat list"
  streams :: "frame list list"
  bus :: eventMap
  close_listeners :: "(nat \<times> eventMap) list"

subsection \<open>Parameters and outcomes of a handler\<close>

text \<open>The parameter object of a request; a handler reads the entries it destructures.
  An entry that is missing is \<open>None\<close> (\<open>wait\<close> is read for its truthiness only).\<close>

record params =
  values_p :: "cfg_values option"
  ip_p :: "string option"
  port_p :: "nat option"
  wait :: bool
  cert :: "string option"
  private_key :: "string option"
  name :: "string option"
  file_p :: "string option"
  id_p :: string
  disable :: "bool option"

text \<open>What a call of a handler gives: an \<^verbatim>\<open>ApiError\<close> with its status code and
  optional message, a result object, a \<^verbatim>\<open>Readable\<close> stream, a promise rejected with
  the error that the handler did not catch, or nothing at all when the promise it
  returned never settles.\<close>

datatype outcome =
    ApiError nat "string option"
  | Result jsval
  | Readable nat
  | Rejected string
  | NeverReturns

type_synonym handler = "params \<Rightarrow> Context \<Rightarrow> world \<Rightarrow> outcome \<times> world"

text \<open>
  What this module imports from modules that are not among the sources and only passes
  on: the constants of const.ts, \<^verbatim>\<open>getUrls\<close>, \<^verbatim>\<open>getProxyDetected\<close>,
  \<^verbatim>\<open>getWholeConfig\<close>, and the two tables of handlers spread into \<^verbatim>\<open>adminApis\<close>.
  They are parameters of the model.
\<close>

record env =
  FORBIDDEN :: nat
  HFS_STARTED :: jsval
  BUILD_TIMESTAMP :: jsval
  VERSION :: jsval
  getUrls :: "world \<Rightarrow> jsval"
  getProxyDetected :: "world \<Rightarrow> jsval"
  getWholeConfig :: "params \<Rightarrow> world \<Rightarrow> jsval"
  vfsApis :: "(string \<times> handler) list"
  accountsApis :: "(string \<times> handler) list"

subsection \<open>Configuration and files\<close>

text \<open>
  Modelled from the spec: config.ts, which defines \<^verbatim>\<open>getConfig\<close> and \<^verbatim>\<open>setConfig\<close>, is
  not among the sources. The spec treats configuration storage as an external
  collaborator that holds the entries and applies new values: \<open>getConfig\<close> is the
  selection of an entry of \<open>cfg\<close>, and \<open>setConfig\<close> writes every value it is given
  to its entry, leaves the other entries as they are, and is recorded in
  \<open>setConfig_calls\<close>.
\<close>

definition setConfig :: "cfg_values \<Rightarrow> world \<Rightarrow> world" where
  "setConfig v w = w\<lparr>
     cfg := \<lparr>
       port = (case v_port v of Some x \<Rightarrow> x | None \<Rightarrow> port (cfg w)),
       https_port = (case v_https_port v of Some x \<Rightarrow> x | None \<Rightarrow> https_port (cfg w)),
       localhost_admin =
         (case v_localhost_admin v of Some x \<Rightarrow> x | None \<Rightarrow> localhost_admin (cfg w)),
       disable_plugins =
         (case v_disable_plugins v of Some x \<Rightarrow> x | None \<Rightarrow> disable_plugins (cfg w)),
       other = Object_assign (other (cfg w)) (v_other v)\<rparr>,
     setConfig_calls := setConfig_calls w @ [v]\<rparr>"

text \<open>\<^verbatim>\<open>writeFile(path, data)\<close> of fs/promises: the promise is rejected with the error
  code of the file system when the path cannot be written (\<^verbatim>\<open>ENOENT\<close> for a missing
  directory, say) and nothing is written; otherwise the file holds the data.\<close>

definition writeFile :: "string \<Rightarrow> string \<Rightarrow> world \<Rightarrow> string + world" where
  "writeFile p d w =
     (case write_error w p of
        Some e \<Rightarrow> Inl e
      | None \<Rightarrow> Inr (w\<lparr>files := AList.update p d (files w)\<rparr>))"

subsection \<open>The access predicate\<close>

text \<open>
  \<^verbatim>\<open>isLocalHost(ctx) && getConfig('localhost_admin') && !ctx.state.proxiedFor
     || getFromAccount(ctx.state.account, a => a.admin)\<close>.
  When the conjunction is truthy its value is that of the negation, \<^verbatim>\<open>true\<close>; otherwise
  the value is the one of the right operand of \<^verbatim>\<open>||\<close>, which may be \<^verbatim>\<open>undefined\<close>.
\<close>

definition ctxAdminAccess :: "Context \<Rightarrow> world \<Rightarrow> bool option" where
  "ctxAdminAccess c w =
     (if isLocalHost c \<and> localhost_admin (cfg w) \<and> \<not> truthy (proxiedFor c)
      then Some True
      else account_admin c)"

text \<open>The body of the loop that closes the module: the handler stored under a key is
  replaced by one that consults the access predicate first.\<close>

definition guard :: "handler \<Rightarrow> handler" where
  "guard was = (\<lambda>p c w.
     if ctxAdminAccess c w = Some True then was p c w
     else (ApiError 401 None, w))"

subsection \<open>set_config, get_config, get_status\<close>

definition set_config :: "env \<Rightarrow> handler" where
  "set_config e p c w =
     (case values_p p of
        Some v \<Rightarrow>
          (let noHttp = (case v_port v of Some x \<Rightarrow> x | None \<Rightarrow> port (cfg w)) < 0
                 \<or> \<not> listening (httpSrv w);
               noHttps = (case v_https_port v of Some x \<Rightarrow> x | None \<Rightarrow> https_port (cfg w)) < 0
                 \<or> \<not> listening (httpsSrv w)
           in if noHttp \<and> noHttps
              then (ApiError (FORBIDDEN e)
                      (Some ''You cannot switch off both http and https ports''), w)
              else (Result (JObj []), setConfig v w))
      | None \<Rightarrow> (Result (JObj []), w))"

definition get_config :: "env \<Rightarrow> handler" where
  "get_config e p c w = (Result (getWholeConfig e p w), w)"

text \<open>\<^verbatim>\<open>_.pick(h, keys)\<close> keeps the keys that the object has.\<close>

definition pick :: "string \<Rightarrow> jsval option \<Rightarrow> obj" where
  "pick k v = (case v of Some x \<Rightarrow> [(k, x)] | None \<Rightarrow> [])"

definition serverStatus :: "Server \<Rightarrow> int \<Rightarrow> jsval" where
  "serverStatus h configuredPort = JObj
     ([(''listening'', JBool (listening h))]
      @ pick ''busy'' (busy h)
      @ pick ''error'' (error h)
      @ [(''port'', (case address_port h of
                       Some n \<Rightarrow> if n \<noteq> 0 then JNum (int n) else JNum configuredPort
                     | None \<Rightarrow> JNum configuredPort))])"

definition get_status :: "env \<Rightarrow> handler" where
  "get_status e p c w = (Result (JObj
     [(''started'', HFS_STARTED e),
      (''build'', BUILD_TIMESTAMP e),
      (''version'', VERSION e),
      (''http'', serverStatus (httpSrv w) (port (cfg w))),
      (''https'', serverStatus (httpsSrv w) (https_port (cfg w))),
      (''urls'', getUrls e w),
      (''proxyDetected'', getProxyDetected e w)]), w)"

subsection \<open>disconnect\<close>

definition getConnAddress :: "Connection \<Rightarrow> string option \<times> nat option" where
  "getConnAddress conn =
     ((case ctx conn of
         Some c \<Rightarrow> if ip c \<noteq> [] then Some (ip c) else remoteAddress (socket conn)
       | None \<Rightarrow> remoteAddress (socket conn)),
      remotePort (socket conn))"

text \<open>
  \<^verbatim>\<open>pendingPromise()\<close> of misc.ts gives a promise that settles only when its
  \<^verbatim>\<open>resolve\<close> is called. \<^verbatim>\<open>c?.socket.end(waiter.resolve)\<close> ends the socket of the
  connection found, the first one of \<^verbatim>\<open>getConnections()\<close> that matches, and hands
  \<^verbatim>\<open>resolve\<close> to it, to be called when the socket has finished; when no connection
  was found the call is skipped and nothing holds \<^verbatim>\<open>resolve\<close>. Awaiting a promise that
  is never resolved does not return.
\<close>

datatype promise = unsettled | resolved

definition pendingPromise :: promise where
  "pendingPromise = unsettled"

fun socket_end :: "(Connection \<Rightarrow> bool) \<Rightarrow> Connection list \<Rightarrow> Connection list" where
  "socket_end P [] = []"
| "socket_end P (x # xs) =
     (if P x then x\<lparr>socket := (socket x)\<lparr>ended := True\<rparr>\<rparr> # xs else x # socket_end P xs)"

fun await :: "promise \<Rightarrow> outcome \<times> world \<Rightarrow> outcome \<times> world" where
  "await resolved k = k"
| "await unsettled k = (NeverReturns, snd k)"

definition disconnect :: handler where
  "disconnect p cx w =
     (let match = (\<lambda>a. a = (ip_p p, port_p p));
          c = find (\<lambda>c. match (getConnAddress c)) (connections w);
          waiter = pendingPromise;
          (waiter', w') =
            (case c of
               Some _ \<Rightarrow>
                 (resolved,
                  w\<lparr>connections := socket_end (\<lambda>c. match (getConnAddress c)) (connections w)\<rparr>)
             | None \<Rightarrow> (waiter, w));
          ret = (Result (JObj [(''result'', JBool (c \<noteq> None))]), w')
      in if wait p then await waiter' ret else ret)"

subsection \<open>save_pem, set_plugin\<close>

text \<open>The two writes are awaited one after the other, the key first; a rejected write
  rejects the call at that point, with what was written before left in place.\<close>

definition save_pem :: handler where
  "save_pem p c w =
     (if \<not> truthy (cert p) \<or> \<not> truthy (private_key p) then (ApiError 400 None, w)
      else case (cert p, private_key p) of
        (Some crt, Some key) \<Rightarrow>
          (let n = (case name p of Some n \<Rightarrow> n | None \<Rightarrow> ''self'');
               files_cert = n @ ''.cert'';
               files_private_key = n @ ''.key''
           in case writeFile files_private_key key w of
                Inl e \<Rightarrow> (Rejected e, w)
              | Inr w1 \<Rightarrow>
                  (case writeFile files_cert crt w1 of
                     Inl e \<Rightarrow> (Rejected e, w1)
                   | Inr w2 \<Rightarrow>
                       (Result (JObj [(''cert'', JStr files_cert),
                                      (''private_key'', JStr files_private_key)]), w2)))
      | _ \<Rightarrow> (ApiError 400 None, w))"

definition set_plugin :: handler where
  "set_plugin p c w =
     (case disable p of
        Some d \<Rightarrow>
          (let a = disable_plugins (cfg w)
           in if (id_p p \<in> set a) \<noteq> d
              then (Result (JObj []),
                    setConfig (no_values\<lparr>v_disable_plugins :=
                       Some (if d then a @ [id_p p] else filter (\<lambda>x. x \<noteq> id_p p) a)\<rparr>) w)
              else (Result (JObj []), w))
      | None \<Rightarrow> (Result (JObj []), w))"

subsection \<open>sendList: a generic dynamic list\<close>

text \<open>\<^verbatim>\<open>stream.push(x)\<close> on the stream numbered \<open>s\<close>.\<close>

definition push :: "nat \<Rightarrow> frame \<Rightarrow> world \<Rightarrow> world" where
  "push s x w = w\<lparr>streams := (streams w)[s := streams w ! s @ [x]]\<rparr>"

definition list_add :: "nat \<Rightarrow> jsval \<Rightarrow> world \<Rightarrow> world" where
  "list_add s rec = push s (Add rec)"

definition list_remove :: "nat \<Rightarrow> jsval \<Rightarrow> world \<Rightarrow> world" where
  "list_remove s key = push s (Remove key)"

definition list_update :: "nat \<Rightarrow> jsval \<Rightarrow> jsval \<Rightarrow> world \<Rightarrow> world" where
  "list_update s search chg = push s (Update search chg)"

text \<open>\<^verbatim>\<open>new Readable(...)\<close>: a new stream, with nothing pushed on it yet.\<close>

definition new_Readable :: "world \<Rightarrow> nat \<times> world" where
  "new_Readable w = (length (streams w), w\<lparr>streams := streams w @ [[]]\<rparr>)"

definition sendList :: "jsval list \<Rightarrow> world \<Rightarrow> nat \<times> world" where
  "sendList addAtStart w =
     (let (stream, w1) = new_Readable w;
          w2 = fold (\<lambda>x. list_add stream x) addAtStart w1
      in (stream, push stream Init w2))"

text \<open>
  Modelled from the spec: events.ts (the process-wide bus, a Node \<^verbatim>\<open>EventEmitter\<close>) and
  \<^verbatim>\<open>onOff\<close> of misc.ts are not among the sources. By the spec, binding an event map
  registers, for each pair of an event name and a handler, the handler under that name,
  and returns an unsubscribe function that deregisters all of them. Handlers are called
  synchronously, in registration order, for as long as they are registered.
  Deregistering a handler takes one registration of it off the bus (the most recent
  one), as \<^verbatim>\<open>EventEmitter.off\<close> does, and does nothing when there is none.
\<close>

definition remove_last :: "'a \<Rightarrow> 'a list \<Rightarrow> 'a list" where
  "remove_last x xs = rev (remove1 x (rev xs))"

definition off :: "eventMap \<Rightarrow> world \<Rightarrow> world" where
  "off em w = w\<lparr>bus := fold remove_last em (bus w)\<rparr>"

definition onOff :: "eventMap \<Rightarrow> world \<Rightarrow> world" where
  "onOff em w = w\<lparr>bus := bus w @ em\<rparr>"

text \<open>\<^verbatim>\<open>list.events(ctx, eventMap)\<close>: the handlers are bound, the unsubscribe function
  is left as a once-listener of the response's \<^verbatim>\<open>close\<close>, the stream is returned.\<close>

definition list_events :: "nat \<Rightarrow> Context \<Rightarrow> eventMap \<Rightarrow> world \<Rightarrow> outcome \<times> world" where
  "list_events stream c em w =
     (let w1 = onOff em w;
          w2 = w1\<lparr>close_listeners := close_listeners w1 @ [(res c, em)]\<rparr>
      in (Readable stream, w2))"

text \<open>The \<^verbatim>\<open>close\<close> event of the response numbered \<open>r\<close>: its once-listeners run, in
  registration order, and are gone afterwards.\<close>

definition res_close :: "nat \<Rightarrow> world \<Rightarrow> world" where
  "res_close r w =
     fold (\<lambda>(r', em) w'. if r' = r then off em w' else w')
       (close_listeners w)
       (w\<lparr>close_listeners := filter (\<lambda>(r', em). r' \<noteq> r) (close_listeners w)\<rparr>)"

subsection \<open>get_connections\<close>

definition fromCtx :: "Context option \<Rightarrow> obj option" where
  "fromCtx cx =
     (case cx of
        None \<Rightarrow> None
      | Some c \<Rightarrow>
          Some [(''path'', if truthy (fileSource c) then JStr (path c)
                           else opt_str (fileSource c))])"

definition endsWith6 :: "string option \<Rightarrow> bool" where
  "endsWith6 f = (case f of None \<Rightarrow> False | Some s \<Rightarrow> s \<noteq> [] \<and> last s = CHR ''6'')"

definition serializeConnection :: "Connection \<Rightarrow> bool \<Rightarrow> jsval" where
  "serializeConnection conn minimal =
     JObj (Object_assign
       [(''ip'', opt_str (fst (getConnAddress conn))),
        (''port'', opt_num (snd (getConnAddress conn)))]
       (if minimal then []
        else [(''v'', JNum (if endsWith6 (remoteFamily (socket conn)) then 6 else 4)),
              (''got'', JNum (got conn)),
              (''started'', JDate (started conn)),
              (''secure'', if secure conn then JBool True else JUndefined)]
             @ (case fromCtx (ctx conn) of None \<Rightarrow> [] | Some o1 \<Rightarrow> o1)))"

text \<open>What the \<^verbatim>\<open>connectionUpdated\<close> handler does to the change object it is given,
  in place: \<^verbatim>\<open>if (change.ctx) { Object.assign(change, fromCtx(change.ctx));
  delete change.ctx }\<close>.\<close>

definition assign_fromCtx :: "change \<Rightarrow> change" where
  "assign_fromCtx chg =
     (case ch_ctx chg of
        None \<Rightarrow> chg
      | Some c \<Rightarrow>
          \<lparr>ch_ctx = None,
           ch_rest = Object_assign (ch_rest chg)
                       (case fromCtx (Some c) of None \<Rightarrow> [] | Some o1 \<Rightarrow> o1)\<rparr>)"

subsection \<open>get_plugins\<close>

text \<open>\<^verbatim>\<open>Object.assign(p.getData(), _.pick(p, ['id','started']))\<close>.\<close>

definition serialize :: "Plugin \<Rightarrow> jsval" where
  "serialize p = JObj (Object_assign (getData p)
     [(''id'', JStr (plugin_id p)), (''started'', plugin_started p)])"

definition get_prop :: "obj \<Rightarrow> string \<Rightarrow> jsval" where
  "get_prop ob k = (case map_of ob k of Some v \<Rightarrow> v | None \<Rightarrow> JUndefined)"

subsection \<open>Calling the handlers\<close>

text \<open>
  A call of one of the closures of this module with the arguments of an event. The
  event is returned too, because the \<^verbatim>\<open>connectionUpdated\<close> handler changes the object
  it was given, which the listeners called after it see. The bus calls a listener for
  the event name it was registered under only, and this module registers each closure
  under the name of its own event; for any other pairing nothing is done.
\<close>

fun call :: "closure \<Rightarrow> event \<Rightarrow> world \<Rightarrow> event \<times> world" where
  "call (conn_add s) (connection conn) w =
     (connection conn, list_add s (serializeConnection conn False) w)"
| "call (conn_closed s) (connectionClosed conn) w =
     (connectionClosed conn, list_remove s (serializeConnection conn True) w)"
| "call (conn_updated s) (connectionUpdated conn chg) w =
     (let chg' = assign_fromCtx chg
      in (connectionUpdated conn chg',
          list_update s (serializeConnection conn True) (JObj (ch_rest chg')) w))"
| "call (plugin_loaded s) (pluginLoaded p) w = (pluginLoaded p, list_add s (serialize p) w)"
| "call (plugin_unloaded s) (pluginUnloaded i) w =
     (pluginUnloaded i, list_remove s (JObj [(''id'', JStr i)]) w)"
| "call (plugin_no_more s) (pluginAvailableNoMore p) w =
     (pluginAvailableNoMore p, list_remove s (JObj [(''id'', get_prop p ''id'')]) w)"
| "call (plugin_available s) (pluginAvailable p) w = (pluginAvailable p, list_add s (JObj p) w)"
| "call (log_entry s) (logged n entry) w = (logged n entry, push s (Add entry) w)"
| "call _ ev w = (ev, w)"

text \<open>\<^verbatim>\<open>events.emit(name, ...)\<close>: the listeners registered under the name when the event
  is emitted are called in registration order.\<close>

definition deliver :: "string \<Rightarrow> string \<times> closure \<Rightarrow> event \<times> world \<Rightarrow> event \<times> world" where
  "deliver nm = (\<lambda>(n, cb) (e, w'). if n = nm then call cb e w' else (e, w'))"

definition emit :: "event \<Rightarrow> world \<Rightarrow> world" where
  "emit ev w = snd (fold (deliver (event_name ev)) (bus w) (ev, w))"

definition emits :: "event list \<Rightarrow> world \<Rightarrow> world" where
  "emits evs w = fold emit evs w"

definition connections_eventMap :: "nat \<Rightarrow> eventMap" where
  "connections_eventMap s =
     [(''connection'', conn_add s),
      (''connectionClosed'', conn_closed s),
      (''connectionUpdated'', conn_updated s)]"

definition get_connections :: handler where
  "get_connections p c w =
     (let (lst, w1) = sendList (map (\<lambda>c. serializeConnection c False) (connections w)) w
      in list_events lst c (connections_eventMap lst) w1)"

definition plugins_eventMap :: "nat \<Rightarrow> eventMap" where
  "plugins_eventMap s =
     [(''pluginLoaded'', plugin_loaded s),
      (''pluginUnloaded'', plugin_unloaded s),
      (''pluginAvailableNoMore'', plugin_no_more s),
      (''pluginAvailable'', plugin_available s)]"

text \<open>\<^verbatim>\<open>mapPlugins\<close> and \<^verbatim>\<open>getAvailablePlugins\<close> of plugins.ts enumerate the plugins
  loaded and the plugins available, here the two lists of the world.\<close>

definition get_plugins :: handler where
  "get_plugins p c w =
     (let (lst, w1) = sendList (map serialize (plugins w) @ map JObj (available_plugins w)) w
      in list_events lst c (plugins_eventMap lst) w1)"

subsection \<open>get_log\<close>

text \<open>
  The regular expression of \<open>parse\<close> is a sequence of literals and of repeated character
  classes, some of them capturing. Matching is the backtracking search of JavaScript:
  a repetition takes as many characters as it can and gives them back one at a time
  while the rest of the pattern fails. The pattern is anchored at both ends, so the
  tokens have to match the whole line. A line is the sequence of its code units.
\<close>

datatype tok = Lit string | Rep bool "char \<Rightarrow> bool" nat "nat option"

fun backtrack ::
  "(string \<Rightarrow> string list option) \<Rightarrow> bool \<Rightarrow> string \<Rightarrow> nat \<Rightarrow> nat \<Rightarrow> string list option" where
  "backtrack k cap s lo 0 =
     (if lo = 0
      then (case k s of
              Some caps \<Rightarrow> Some (if cap then [] # caps else caps)
            | None \<Rightarrow> None)
      else None)"
| "backtrack k cap s lo (Suc n) =
     (if Suc n < lo then None
      else (case k (drop (Suc n) s) of
              Some caps \<Rightarrow> Some (if cap then take (Suc n) s # caps else caps)
            | None \<Rightarrow> backtrack k cap s lo n))"

primrec exec_toks :: "tok list \<Rightarrow> string \<Rightarrow> string list option" where
  "exec_toks [] = (\<lambda>s. if s = [] then Some [] else None)"
| "exec_toks (t # ts) = (\<lambda>s.
     case t of
       Lit l \<Rightarrow> if take (length l) s = l then exec_toks ts (drop (length l) s) else None
     | Rep cap cls lo hi \<Rightarrow>
         backtrack (exec_toks ts) cap s lo
           (let m = length (takeWhile cls s)
            in case hi of None \<Rightarrow> m | Some h \<Rightarrow> min m h))"

text \<open>The tokens that capture.\<close>

fun capturing :: "tok \<Rightarrow> bool" where
  "capturing (Lit l) = False"
| "capturing (Rep cap cls lo hi) = cap"

definition dot :: "char \<Rightarrow> bool" where
  "dot c = (c \<noteq> CHR 0x0A \<and> c \<noteq> CHR 0x0D)"

definition digit :: "char \<Rightarrow> bool" where
  "digit c = (c \<in> set ''0123456789'')"

definition word :: "char \<Rightarrow> bool" where
  "word c = (c \<in> set ''abcdefghijklmnopqrstuvwxyzABCDEFGHIJKLMNOPQRSTUVWXYZ0123456789_'')"

definition not_quote :: "char \<Rightarrow> bool" where
  "not_quote c = (c \<noteq> CHR 0x22)"

text \<open>\<^verbatim>\<open>/^(.+) - - \[(.{11}):(.{14})] "(\w+) ([^"]+) HTTP\/\d.\d" (\d+) (.+)$/\<close>\<close>

definition log_pattern :: "tok list" where
  "log_pattern =
     [Rep True dot 1 None, Lit '' - - ['',
      Rep True dot 11 (Some 11), Lit '':'',
      Rep True dot 14 (Some 14), Lit (''] '' @ [CHR 0x22]),
      Rep True word 1 None, Lit '' '',
      Rep True not_quote 1 None, Lit '' HTTP/'',
      Rep False digit 1 (Some 1), Rep False dot 1 (Some 1), Rep False digit 1 (Some 1),
      Lit (CHR 0x22 # '' ''),
      Rep True digit 1 None, Lit '' '',
      Rep True dot 1 None]"

text \<open>\<^verbatim>\<open>pattern.exec(line)\<close>: \<^verbatim>\<open>null\<close>, or the array of the whole match followed by
  the captures.\<close>

definition exec :: "string \<Rightarrow> string list option" where
  "exec line = map_option (\<lambda>caps. line # caps) (exec_toks log_pattern line)"

definition parse :: "string \<Rightarrow> jsval" where
  "parse line =
     (case exec line of
        None \<Rightarrow> JNull
      | Some m \<Rightarrow> JObj
          [(''ip'', JStr (m ! 1)),
           (''ts'', JDate (m ! 2 @ '' '' @ m ! 3)),
           (''method'', JStr (m ! 4)),
           (''uri'', JStr (m ! 5)),
           (''code'', JNumber (m ! 6)),
           (''size'', if m ! 7 = ''-'' then JUndefined else JNumber (m ! 7))])"

text \<open>
  The handler finds the logger and returns a new stream at once; the lines of the log
  file arrive later, one \<^verbatim>\<open>line\<close> event each, and the \<^verbatim>\<open>close\<close> event of the reader
  follows. \<open>on_line\<close> and \<open>on_close\<close> are the two listeners; the context they are
  given is the request context as it is when the event arrives.
\<close>

definition get_log :: handler where
  "get_log p c w =
     (case find (\<lambda>l. Some (logger_name l) = file_p p) (loggers w) of
        None \<Rightarrow> (ApiError 404 None, w)
      | Some logger \<Rightarrow> (let (ret, w1) = new_Readable w in (Readable ret, w1)))"

definition on_line :: "Context \<Rightarrow> nat \<Rightarrow> string \<Rightarrow> world \<Rightarrow> world" where
  "on_line c ret line w =
     (if aborted c then w\<lparr>inputs_closed := ret # inputs_closed w\<rparr>
      else push ret (Add (parse line)) w)"

definition on_close :: "Context \<Rightarrow> nat \<Rightarrow> Logger \<Rightarrow> world \<Rightarrow> world" where
  "on_close c ret logger w =
     (let em = [(logger_name logger, log_entry ret)];
          w1 = onOff em w
      in w1\<lparr>close_listeners := close_listeners w1 @ [(res c, em)]\<rparr>)"

text \<open>The lines of a file, delivered one after the other to a request in the state \<open>c\<close>.\<close>

definition on_lines :: "Context \<Rightarrow> nat \<Rightarrow> string list \<Rightarrow> world \<Rightarrow> world" where
  "on_lines c ret lns w = fold (on_line c ret) lns w"

subsection \<open>The table of handlers\<close>

text \<open>The object literal: the two imported tables are spread first, then the handlers
  of this module are written, a later key replacing an earlier one.\<close>

definition adminApis_literal :: "env \<Rightarrow> (string \<times> handler) list" where
  "adminApis_literal e =
     Object_assign (Object_assign (Object_assign [] (vfsApis e)) (accountsApis e))
       [(''set_config'', set_config e),
        (''get_config'', get_config e),
        (''get_status'', get_status e),
        (''disconnect'', disconnect),
        (''get_connections'', get_connections),
        (''save_pem'', save_pem),
        (''get_log'', get_log),
        (''get_plugins'', get_plugins),
        (''set_plugin'', set_plugin)]"

text \<open>\<^verbatim>\<open>for (const k in adminApis) { ... }\<close>: every entry is replaced by its guarded
  version.\<close>

definition adminApis :: "env \<Rightarrow> (string \<times> handler) list" where
  "adminApis e = map (\<lambda>(k, was). (k, guard was)) (adminApis_literal e)"

subsection \<open>Well-formed worlds and the frames of an event\<close>

text \<open>
  A closure captures a stream that was created before it: in a world that the program
  can reach, every closure on the bus, and every closure that an unsubscribe function
  will deregister, captured one of the streams that exist.
\<close>

definition closures_bound :: "world \<Rightarrow> bool" where
  "closures_bound w \<longleftrightarrow>
     list_all (\<lambda>(n, cb). captured cb < length (streams w)) (bus w)
     \<and> list_all (\<lambda>(r, em). list_all (\<lambda>(n, cb). captured cb < length (streams w)) em)
         (close_listeners w)"

text \<open>What a closure pushes on its stream when it is called with an event, and the event
  as the listeners called after it see it.\<close>

fun pushed :: "closure \<Rightarrow> event \<Rightarrow> frame list" where
  "pushed (conn_add s) (connection conn) = [Add (serializeConnection conn False)]"
| "pushed (conn_closed s) (connectionClosed conn) = [Remove (serializeConnection conn True)]"
| "pushed (conn_updated s) (connectionUpdated conn chg) =
     [Update (serializeConnection conn True) (JObj (ch_rest (assign_fromCtx chg)))]"
| "pushed (plugin_loaded s) (pluginLoaded p) = [Add (serialize p)]"
| "pushed (plugin_unloaded s) (pluginUnloaded i) = [Remove (JObj [(''id'', JStr i)])]"
| "pushed (plugin_no_more s) (pluginAvailableNoMore p) = [Remove (JObj [(''id'', get_prop p ''id'')])]"
| "pushed (plugin_available s) (pluginAvailable p) = [Add (JObj p)]"
| "pushed (log_entry s) (logged n entry) = [Add entry]"
| "pushed _ ev = []"

fun seen :: "event \<Rightarrow> event" where
  "seen (connectionUpdated conn chg) = connectionUpdated conn (assign_fromCtx chg)"
| "seen ev = ev"

text \<open>The frames that the listeners of an event map which captured the stream \<open>s\<close>
  push for an event.\<close>

definition frames_for :: "nat \<Rightarrow> eventMap \<Rightarrow> event \<Rightarrow> frame list" where
  "frames_for s em ev =
     concat (map (\<lambda>(n, cb). if n = event_name ev \<and> captured cb = s then pushed cb ev else []) em)"

text \<open>Stated from the side of the specification: the one diff frame that a list of
  connections, and a list of plugins, is to show for a mutation event of its producer.
  Events of other producers do not concern the list.\<close>

fun connection_frames :: "event \<Rightarrow> frame list" where
  "connection_frames (connection conn) = [Add (serializeConnection conn False)]"
| "connection_frames (connectionClosed conn) = [Remove (serializeConnection conn True)]"
| "connection_frames (connectionUpdated conn chg) =
     [Update (serializeConnection conn True) (JObj (ch_rest (assign_fromCtx chg)))]"
| "connection_frames _ = []"

fun plugin_frames :: "event \<Rightarrow> frame list" where
  "plugin_frames (pluginLoaded p) = [Add (serialize p)]"
| "plugin_frames (pluginUnloaded i) = [Remove (JObj [(''id'', JStr i)])]"
| "plugin_frames (pluginAvailableNoMore p) = [Remove (JObj [(''id'', get_prop p ''id'')])]"
| "plugin_frames (pluginAvailable p) = [Add (JObj p)]"
| "plugin_frames _ = []"

text \<open>The bus after the unsubscribe functions left on the response \<open>r\<close> have run.\<close>

definition unsubscribed :: "nat \<Rightarrow> (nat \<times> eventMap) list \<Rightarrow> eventMap \<Rightarrow> eventMap" where
  "unsubscribed r L b = fold (\<lambda>(r', em) b'. if r' = r then fold remove_last em b' else b') L b"

subsection \<open>A sample world\<close>

text \<open>A server listening on both ports, one plugin disabled, a working directory without
  subdirectories, nothing else; a request from
  another host without an account; an empty parameter object; and values for what the
  module imports.\<close>

definition srv_up :: Server where
  "srv_up = \<lparr>listening = True, busy = None, error = None, address_port = Some 80\<rparr>"

definition w0 :: world where
  "w0 = \<lparr>cfg = \<lparr>port = 80, https_port = 443, localhost_admin = True,
                 disable_plugins = [''antibrute''], other = []\<rparr>,
          setConfig_calls = [],
          httpSrv = srv_up, httpsSrv = srv_up,
          connections = [], plugins = [], available_plugins = [],
          files = [], write_error = (\<lambda>p. if CHR ''/'' \<in> set p then Some ''ENOENT'' else None),
          loggers = [], inputs_closed = [],
          streams = [], bus = [], close_listeners = []\<rparr>"

definition c0 :: Context where
  "c0 = \<lparr>ip = ''192.168.1.9'', path = ''/~/api/x'', fileSource = None, aborted = False,
          res = 0, isLocalHost = False, proxiedFor = None, account_admin = None\<rparr>"

definition p0 :: params where
  "p0 = \<lparr>values_p = None, ip_p = None, port_p = None, wait = False, cert = None,
          private_key = None, name = None, file_p = None, id_p = [], disable = None\<rparr>"

definition e0 :: env where
  "e0 = \<lparr>FORBIDDEN = 403, HFS_STARTED = JDate ''2022-01-01'', BUILD_TIMESTAMP = JStr ''-'',
          VERSION = JStr ''0.21.0'', getUrls = (\<lambda>w. JObj []),
          getProxyDetected = (\<lambda>w. JBool False), getWholeConfig = (\<lambda>p w. JObj []),
          vfsApis = [], accountsApis = []\<rparr>"

text \<open>Two connections, and the sample world with the first of them open.\<close>

definition sock0 :: Socket where
  "sock0 = \<lparr>remoteAddress = Some ''10.0.0.7'', remotePort = Some 5000,
             remoteFamily = Some ''IPv4'', ended = False\<rparr>"

definition conn0 :: Connection where
  "conn0 = \<lparr>socket = sock0, started = ''2022-01-01T10:00:00'', secure = False, got = 0,
             ctx = None\<rparr>"

definition conn1 :: Connection where
  "conn1 = \<lparr>socket = sock0\<lparr>remotePort := Some 5001\<rparr>, started = ''2022-01-01T10:00:05'',
             secure = True, got = 0, ctx = None\<rparr>"

definition w1 :: world where
  "w1 = w0\<lparr>connections := [conn0]\<rparr>"

text \<open>The sample world with one logger, and a line of its log file.\<close>

definition w_log :: world where
  "w_log = w0\<lparr>loggers := [\<lparr>logger_name = ''log'', logger_path = ''access.log''\<rparr>]\<rparr>"

definition line_ok :: string where
  "line_ok = ''127.0.0.1 - - [01/Jan/2022:10:00:00 +0000] '' @ [CHR 0x22]
             @ ''GET /a HTTP/1.1'' @ [CHR 0x22] @ '' 200 -''"

section \<open>Properties\<close>

subsection \<open>Access\<close>

text \<open>
  C3. The access predicate gives \<^verbatim>\<open>true\<close> exactly when the request comes from the
  loopback interface, the \<^verbatim>\<open>localhost_admin\<close> entry of the configuration is set and
  the request carries no mark of a proxy (\<^verbatim>\<open>ctx.state.proxiedFor\<close> is not truthy), or
  the account of the request has the admin flag. In every other case its value is falsy.
\<close>

theorem ctxAdminAccess_iff:
  "ctxAdminAccess c w = Some True \<longleftrightarrow>
     (isLocalHost c \<and> localhost_admin (cfg w) \<and> \<not> truthy (proxiedFor c))
     \<or> account_admin c = Some True"
  by (auto simp: ctxAdminAccess_def)

theorem ctxAdminAccess_iff_witness:
  "ctxAdminAccess (c0\<lparr>isLocalHost := True\<rparr>) w0 = Some True
   \<and> ctxAdminAccess (c0\<lparr>isLocalHost := True, proxiedFor := Some ''10.0.0.1''\<rparr>) w0 \<noteq> Some True
   \<and> ctxAdminAccess (c0\<lparr>account_admin := Some True\<rparr>) w0 = Some True
   \<and> ctxAdminAccess c0 w0 \<noteq> Some True"
  using ctxAdminAccess_iff [of "c0\<lparr>isLocalHost := True\<rparr>" w0]
    ctxAdminAccess_iff [of "c0\<lparr>isLocalHost := True, proxiedFor := Some ''10.0.0.1''\<rparr>" w0]
    ctxAdminAccess_iff [of "c0\<lparr>account_admin := Some True\<rparr>" w0]
    ctxAdminAccess_iff [of c0 w0]
  by (simp add: c0_def w0_def)

lemma guard_denied:
  "ctxAdminAccess c w \<noteq> Some True \<Longrightarrow> guard was p c w = (ApiError 401 None, w)"
  by (simp add: guard_def)

text \<open>
  C2. Whatever handler is stored under a key of \<open>adminApis\<close>, a call of it with a
  request context that the access predicate does not accept gives \<^verbatim>\<open>ApiError(401)\<close>
  and leaves the world as it was: the handler that was under the key before is not
  called, so the configuration, the files and the streams are untouched.
\<close>

theorem adminApis_unauthorized:
  assumes "(k, h) \<in> set (adminApis e)" and "ctxAdminAccess c w \<noteq> Some True"
  shows "h p c w = (ApiError 401 None, w)"
proof -
  from assms(1) obtain was where "h = guard was"
    by (auto simp: adminApis_def)
  with assms(2) show ?thesis
    by (simp add: guard_denied)
qed

theorem adminApis_unauthorized_witness:
  "(''save_pem'', guard save_pem) \<in> set (adminApis e0)
   \<and> ctxAdminAccess c0 w0 \<noteq> Some True
   \<and> guard save_pem (p0\<lparr>cert := Some ''C'', private_key := Some ''K''\<rparr>) c0 w0
       = (ApiError 401 None, w0)"
proof -
  have m: "(''save_pem'', guard save_pem) \<in> set (adminApis e0)"
    by (simp add: adminApis_def adminApis_literal_def Object_assign_def e0_def)
  have d: "ctxAdminAccess c0 w0 \<noteq> Some True"
    by (simp add: ctxAdminAccess_def c0_def)
  from adminApis_unauthorized [OF m d] m d show ?thesis by simp
qed

text \<open>With nothing imported, the table has the nine handlers of this module, each of
  them guarded.\<close>

lemma adminApis_keys:
  "map fst (adminApis e0) =
     [''set_config'', ''get_config'', ''get_status'', ''disconnect'', ''get_connections'',
      ''save_pem'', ''get_log'', ''get_plugins'', ''set_plugin'']"
  by (simp add: adminApis_def adminApis_literal_def Object_assign_def e0_def)

lemma adminApis_guarded: "(k, h) \<in> set (adminApis e) \<Longrightarrow> \<exists>was. h = guard was"
  by (auto simp: adminApis_def)

subsection \<open>Configuration\<close>

text \<open>
  C6. A call of \<open>set_config\<close> with values is refused when, with these values, the
  plain port is negative or the plain server is not listening, and the same holds for
  the secure port and server: the outcome is the \<^verbatim>\<open>ApiError\<close> with the code
  \<^verbatim>\<open>FORBIDDEN\<close> and the world is unchanged, so \<open>setConfig\<close> was not called. In every
  other case the values are handed to \<open>setConfig\<close> and the outcome is the empty
  object. (A call without values gives the empty object and changes nothing.)
\<close>

theorem set_config_refuses_unreachable:
  assumes "values_p p = Some v"
  shows "set_config e p c w =
    (if ((case v_port v of Some x \<Rightarrow> x | None \<Rightarrow> port (cfg w)) < 0 \<or> \<not> listening (httpSrv w))
        \<and> ((case v_https_port v of Some x \<Rightarrow> x | None \<Rightarrow> https_port (cfg w)) < 0
             \<or> \<not> listening (httpsSrv w))
     then (ApiError (FORBIDDEN e) (Some ''You cannot switch off both http and https ports''), w)
     else (Result (JObj []), setConfig v w))"
  using assms by (simp add: set_config_def Let_def)

theorem set_config_refuses_unreachable_witness:
  "set_config e0
     (p0\<lparr>values_p := Some (no_values\<lparr>v_port := Some (- 1), v_https_port := Some (- 1)\<rparr>)\<rparr>)
     c0 w0
     = (ApiError 403 (Some ''You cannot switch off both http and https ports''), w0)
   \<and> port (cfg (snd (set_config e0
        (p0\<lparr>values_p := Some (no_values\<lparr>v_port := Some 8080\<rparr>)\<rparr>) c0 w0))) = 8080
   \<and> fst (set_config e0
        (p0\<lparr>values_p := Some (no_values\<lparr>v_port := Some 8080\<rparr>)\<rparr>) c0 w0) = Result (JObj [])"
  using set_config_refuses_unreachable
      [where p = "p0\<lparr>values_p := Some (no_values\<lparr>v_port := Some (- 1), v_https_port := Some (- 1)\<rparr>)\<rparr>"
         and v = "no_values\<lparr>v_port := Some (- 1), v_https_port := Some (- 1)\<rparr>"
         and e = e0 and c = c0 and w = w0]
    set_config_refuses_unreachable
      [where p = "p0\<lparr>values_p := Some (no_values\<lparr>v_port := Some 8080\<rparr>)\<rparr>"
         and v = "no_values\<lparr>v_port := Some 8080\<rparr>" and e = e0 and c = c0 and w = w0]
  by (simp add: p0_def no_values_def e0_def w0_def srv_up_def setConfig_def)

lemma set_config_no_values:
  "values_p p = None \<Longrightarrow> set_config e p c w = (Result (JObj []), w)"
  by (simp add: set_config_def)

text \<open>
  C9. When the \<^verbatim>\<open>disable_plugins\<close> entry already says what is asked for (the plugin
  is in the list exactly when it is to be disabled), \<open>set_plugin\<close> gives the empty
  object and leaves the world as it was, without a call of \<open>setConfig\<close>. A second
  call with the same parameters, right after a first one, never changes anything.
\<close>

theorem set_plugin_idempotent:
  "(disable p = Some d \<and> (id_p p \<in> set (disable_plugins (cfg w))) = d \<longrightarrow>
      set_plugin p c w = (Result (JObj []), w))
   \<and> set_plugin p c' (snd (set_plugin p c w)) = (Result (JObj []), snd (set_plugin p c w))"
  by (auto simp: set_plugin_def Let_def setConfig_def no_values_def split: option.splits)

theorem set_plugin_idempotent_witness:
  "set_plugin (p0\<lparr>id_p := ''antibrute'', disable := Some True\<rparr>) c0 w0 = (Result (JObj []), w0)
   \<and> disable_plugins (cfg (snd (set_plugin (p0\<lparr>id_p := ''x'', disable := Some True\<rparr>) c0 w0)))
       = [''antibrute'', ''x'']
   \<and> set_plugin (p0\<lparr>id_p := ''x'', disable := Some True\<rparr>) c0
        (snd (set_plugin (p0\<lparr>id_p := ''x'', disable := Some True\<rparr>) c0 w0))
      = (Result (JObj []), snd (set_plugin (p0\<lparr>id_p := ''x'', disable := Some True\<rparr>) c0 w0))"
  using set_plugin_idempotent
      [where p = "p0\<lparr>id_p := ''antibrute'', disable := Some True\<rparr>" and d = True
         and w = w0 and c = c0 and c' = c0]
    set_plugin_idempotent
      [where p = "p0\<lparr>id_p := ''x'', disable := Some True\<rparr>" and d = True
         and w = w0 and c = c0 and c' = c0]
  by (simp add: p0_def w0_def set_plugin_def setConfig_def no_values_def)

subsection \<open>Certificates\<close>




subsection \<open>Disconnecting\<close>

text \<open>
  C8. A call of \<open>disconnect\<close> that asks to wait, when no connection has the address
  and port given, never returns: no socket is ended, so nothing resolves the promise
  that the call awaits.
\<close>

theorem disconnect_waits_forever:
  assumes "wait p"
    and "find (\<lambda>c. getConnAddress c = (ip_p p, port_p p)) (connections w) = None"
  shows "fst (disconnect p cx w) = NeverReturns"
  using assms by (simp add: disconnect_def Let_def pendingPromise_def)

theorem disconnect_waits_forever_witness:
  "wait (p0\<lparr>wait := True, ip_p := Some ''10.0.0.7'', port_p := Some 5000\<rparr>)
   \<and> fst (disconnect (p0\<lparr>wait := True, ip_p := Some ''10.0.0.7'', port_p := Some 5000\<rparr>) c0 w0)
       = NeverReturns"
  using disconnect_waits_forever
      [where p = "p0\<lparr>wait := True, ip_p := Some ''10.0.0.7'', port_p := Some 5000\<rparr>"
         and w = w0 and cx = c0]
  by (simp add: p0_def w0_def)

text \<open>In every other case the call returns, and says whether a connection was found.\<close>

lemma disconnect_returns:
  "\<not> wait p \<or> find (\<lambda>c. getConnAddress c = (ip_p p, port_p p)) (connections w) \<noteq> None \<Longrightarrow>
   fst (disconnect p cx w) =
     Result (JObj [(''result'',
       JBool (find (\<lambda>c. getConnAddress c = (ip_p p, port_p p)) (connections w) \<noteq> None))])"
  by (auto simp: disconnect_def Let_def pendingPromise_def split: option.splits)

subsection \<open>Streams and the bus\<close>

text \<open>How a call, an event and a sequence of events change a stream.\<close>

lemma push_simps:
  "streams (push s x w) = (streams w)[s := streams w ! s @ [x]]"
  "bus (push s x w) = bus w"
  "close_listeners (push s x w) = close_listeners w"
  by (simp_all add: push_def)

lemma assign_fromCtx_idem: "assign_fromCtx (assign_fromCtx chg) = assign_fromCtx chg"
  by (simp add: assign_fromCtx_def split: option.splits)

lemma seen_idem: "seen (seen ev) = seen ev"
  by (cases ev) (simp_all add: assign_fromCtx_idem)

lemma pushed_seen: "pushed cb (seen ev) = pushed cb ev"
  by (cases "(cb, ev)" rule: pushed.cases) (simp_all add: assign_fromCtx_idem)

lemma call_fst: "fst (call cb e w) = e \<or> fst (call cb e w) = seen e"
  by (cases "(cb, e, w)" rule: call.cases) (simp_all add: Let_def)

lemma call_snd: "snd (call cb e w) = fold (push (captured cb)) (pushed cb e) w"
  by (cases "(cb, e, w)" rule: call.cases)
    (simp_all add: Let_def list_add_def list_remove_def list_update_def)

lemma fold_push_streams:
  "s < length (streams w) \<Longrightarrow>
   streams (fold (push t) xs w) ! s = (if t = s then streams w ! s @ xs else streams w ! s)"
  by (induction xs arbitrary: w) (simp_all add: push_simps nth_list_update)

lemma fold_push_length: "length (streams (fold (push t) xs w)) = length (streams w)"
  by (induction xs arbitrary: w) (simp_all add: push_simps)

lemma fold_push_bus:
  "bus (fold (push t) xs w) = bus w"
  "close_listeners (fold (push t) xs w) = close_listeners w"
  by (induction xs arbitrary: w) (simp_all add: push_simps)

lemma deliver_fold:
  assumes "e = ev \<or> e = seen ev" and "s < length (streams w)"
  shows "streams (snd (fold (deliver (event_name ev)) L (e, w))) ! s
           = streams w ! s @ frames_for s L ev
         \<and> length (streams (snd (fold (deliver (event_name ev)) L (e, w)))) = length (streams w)
         \<and> bus (snd (fold (deliver (event_name ev)) L (e, w))) = bus w
         \<and> close_listeners (snd (fold (deliver (event_name ev)) L (e, w))) = close_listeners w"
  using assms
proof (induction L arbitrary: e w)
  case Nil
  then show ?case by (simp add: frames_for_def)
next
  case (Cons a L)
  obtain n cb where a: "a = (n, cb)" by (cases a)
  show ?case
  proof (cases "n = event_name ev")
    case False
    with Cons a show ?thesis by (simp add: deliver_def frames_for_def)
  next
    case True
    obtain e' w' where c: "call cb e w = (e', w')" by (cases "call cb e w")
    have e': "e' = ev \<or> e' = seen ev"
      using call_fst [of cb e w] c Cons.prems(1) by (auto simp: seen_idem)
    have w': "w' = fold (push (captured cb)) (pushed cb ev) w"
      using call_snd [of cb e w] c Cons.prems(1) by (auto simp: pushed_seen)
    have len: "s < length (streams w')"
      using Cons.prems(2) by (simp add: w' fold_push_length)
    have step: "fold (deliver (event_name ev)) (a # L) (e, w)
                  = fold (deliver (event_name ev)) L (e', w')"
      using True a c by (simp add: deliver_def)
    from Cons.IH [OF e' len] show ?thesis
      unfolding step using True a Cons.prems(2)
      by (simp add: w' fold_push_streams fold_push_length fold_push_bus frames_for_def)
  qed
qed

lemma call_frame:
  "length (streams (snd (call cb e w))) = length (streams w)"
  "bus (snd (call cb e w)) = bus w"
  "close_listeners (snd (call cb e w)) = close_listeners w"
  by (simp_all add: call_snd fold_push_length fold_push_bus)

lemma deliver_fold_frame:
  "length (streams (snd (fold (deliver nm) L (e, w)))) = length (streams w)
   \<and> bus (snd (fold (deliver nm) L (e, w))) = bus w
   \<and> close_listeners (snd (fold (deliver nm) L (e, w))) = close_listeners w"
proof (induction L arbitrary: e w)
  case Nil
  then show ?case by simp
next
  case (Cons a L)
  obtain n cb where a: "a = (n, cb)" by (cases a)
  obtain e' w' where c: "call cb e w = (e', w')" by (cases "call cb e w")
  have "length (streams w') = length (streams w)" "bus w' = bus w"
    "close_listeners w' = close_listeners w"
    using call_frame [of cb e w] c by simp_all
  with Cons.IH [of e' w'] Cons.IH [of e w] a c show ?case
    by (simp add: deliver_def)
qed

lemma emit_frame:
  "length (streams (emit ev w)) = length (streams w)"
  "bus (emit ev w) = bus w"
  "close_listeners (emit ev w) = close_listeners w"
  by (simp_all add: emit_def deliver_fold_frame)

lemma emit_stream:
  "s < length (streams w) \<Longrightarrow> streams (emit ev w) ! s = streams w ! s @ frames_for s (bus w) ev"
  using deliver_fold [of ev ev s w "bus w"] by (simp add: emit_def)

lemma emits_frame:
  "length (streams (emits evs w)) = length (streams w)"
  "bus (emits evs w) = bus w"
  "close_listeners (emits evs w) = close_listeners w"
  by (induction evs arbitrary: w) (simp_all add: emits_def emit_frame)

lemma emits_stream:
  "s < length (streams w) \<Longrightarrow>
   streams (emits evs w) ! s = streams w ! s @ concat (map (frames_for s (bus w)) evs)"
proof (induction evs arbitrary: w)
  case Nil
  then show ?case by (simp add: emits_def)
next
  case (Cons ev evs)
  have "emits (ev # evs) w = emits evs (emit ev w)" by (simp add: emits_def)
  with Cons.IH [of "emit ev w"] Cons.prems show ?case
    by (simp add: emit_frame emit_stream)
qed

lemma frames_for_append: "frames_for s (xs @ ys) ev = frames_for s xs ev @ frames_for s ys ev"
  by (simp add: frames_for_def)

lemma frames_for_others:
  "list_all (\<lambda>(n, cb). captured cb \<noteq> s) em \<Longrightarrow> frames_for s em ev = []"
  by (induction em) (auto simp: frames_for_def)

lemma frames_for_connections: "frames_for s (connections_eventMap s) ev = connection_frames ev"
  by (cases ev) (simp_all add: frames_for_def connections_eventMap_def)

lemma frames_for_plugins: "frames_for s (plugins_eventMap s) ev = plugin_frames ev"
  by (cases ev) (simp_all add: frames_for_def plugins_eventMap_def)

lemma fold_list_add:
  "s < length (streams w) \<Longrightarrow>
   fold (list_add s) xs w = w\<lparr>streams := (streams w)[s := streams w ! s @ map Add xs]\<rparr>"
  by (induction xs arbitrary: w) (simp_all add: list_add_def push_def)

lemma sendList_eq:
  "sendList xs w = (length (streams w), w\<lparr>streams := streams w @ [map Add xs @ [Init]]\<rparr>)"
  by (simp add: sendList_def new_Readable_def fold_list_add Let_def push_def)

lemma list_events_eq:
  "list_events s c em w =
     (Readable s, w\<lparr>bus := bus w @ em, close_listeners := close_listeners w @ [(res c, em)]\<rparr>)"
  by (simp add: list_events_def onOff_def Let_def)

lemma bound_others:
  "list_all (\<lambda>(n, cb). captured cb < k) em \<Longrightarrow> list_all (\<lambda>(n, cb). captured cb \<noteq> k) em"
  by (induction em) auto

text \<open>
  C1. A call of \<open>get_connections\<close> returns a new stream. Whatever events are emitted
  on the bus afterwards, the stream holds one \<^verbatim>\<open>{add: item}\<close> frame for each connection
  of the snapshot, in the order of \<^verbatim>\<open>getConnections()\<close>, then \<^verbatim>\<open>'init'\<close>, then one
  frame for each event of the connection tracker, in the order of the events: none is
  missing and none is there twice, however many other subscriptions are on the bus.
  The same holds for \<open>get_plugins\<close> and the events of the plugin registry. The
  snapshot is taken and the handlers are registered within the one synchronous call of
  the handler, so no event of the bus falls between the two.
\<close>

theorem live_list_stream:
  assumes "closures_bound w"
  shows "fst (get_connections p c w) = Readable (length (streams w))
       \<and> streams (emits evs (snd (get_connections p c w))) ! length (streams w)
           = map (\<lambda>conn. Add (serializeConnection conn False)) (connections w) @ [Init]
             @ concat (map connection_frames evs)
       \<and> fst (get_plugins p c w) = Readable (length (streams w))
       \<and> streams (emits evs (snd (get_plugins p c w))) ! length (streams w)
           = map Add (map serialize (plugins w) @ map JObj (available_plugins w)) @ [Init]
             @ concat (map plugin_frames evs)"
proof -
  have others: "\<And>ev. frames_for (length (streams w)) (bus w) ev = []"
    using assms by (simp add: closures_bound_def frames_for_others bound_others)
  have fc: "frames_for (length (streams w)) (bus w @ connections_eventMap (length (streams w)))
              = connection_frames"
    by (rule ext) (simp add: frames_for_append others frames_for_connections)
  have fp: "frames_for (length (streams w)) (bus w @ plugins_eventMap (length (streams w)))
              = plugin_frames"
    by (rule ext) (simp add: frames_for_append others frames_for_plugins)
  have conn: "streams (emits evs (snd (get_connections p c w))) ! length (streams w)
           = map (\<lambda>conn. Add (serializeConnection conn False)) (connections w) @ [Init]
             @ concat (map connection_frames evs)"
    by (simp add: get_connections_def sendList_eq list_events_eq emits_stream fc comp_def)
  have plug: "streams (emits evs (snd (get_plugins p c w))) ! length (streams w)
           = map Add (map serialize (plugins w) @ map JObj (available_plugins w)) @ [Init]
             @ concat (map plugin_frames evs)"
    by (simp add: get_plugins_def sendList_eq list_events_eq emits_stream fp comp_def)
  show ?thesis
    using conn plug by (simp add: get_connections_def get_plugins_def sendList_eq list_events_eq)
qed

theorem live_list_stream_witness:
  "closures_bound (snd (get_plugins p0 c0 w1))
   \<and> fst (get_connections p0 c0 (snd (get_plugins p0 c0 w1))) = Readable 1
   \<and> streams (emits [connection conn1, pluginUnloaded ''antibrute'', connectionClosed conn0]
        (snd (get_connections p0 c0 (snd (get_plugins p0 c0 w1))))) ! 1
      = [Add (serializeConnection conn0 False), Init,
         Add (serializeConnection conn1 False), Remove (serializeConnection conn0 True)]"
proof -
  have w: "snd (get_plugins p0 c0 w1)
     = w1\<lparr>streams := [[Init]], bus := plugins_eventMap 0,
           close_listeners := [(0, plugins_eventMap 0)]\<rparr>"
    by (simp add: get_plugins_def sendList_eq list_events_eq w1_def w0_def c0_def)
  have h: "closures_bound (snd (get_plugins p0 c0 w1))"
    unfolding w by (simp add: closures_bound_def plugins_eventMap_def)
  have l: "length (streams (snd (get_plugins p0 c0 w1))) = 1"
    "connections (snd (get_plugins p0 c0 w1)) = [conn0]"
    unfolding w by (simp_all add: w1_def)
  from live_list_stream [OF h, of p0 c0
      "[connection conn1, pluginUnloaded ''antibrute'', connectionClosed conn0]"] h
  show ?thesis
    by (simp add: l)
qed

text \<open>The worlds in which every closure captured an existing stream are closed under the
  operations of the module.\<close>

lemma closures_bound_w0: "closures_bound w0"
  by (simp add: closures_bound_def w0_def)

lemma closures_bound_emit: "closures_bound w \<Longrightarrow> closures_bound (emit ev w)"
  by (simp add: closures_bound_def emit_frame)

subsection \<open>Unsubscribing\<close>

lemma remove_last_notin: "x \<notin> set xs \<Longrightarrow> remove_last x xs = xs"
  by (simp add: remove_last_def remove1_idem)

lemma remove_last_append_notin:
  "x \<notin> set ys \<Longrightarrow> remove_last x (xs @ ys) = remove_last x xs @ ys"
  by (simp add: remove_last_def remove1_append)

lemma remove_last_own: "x \<notin> set ys \<Longrightarrow> remove_last x (xs @ x # ys) = xs @ ys"
  by (simp add: remove_last_def remove1_append)

lemma set_remove_last: "set (remove_last x xs) \<subseteq> set xs"
  using set_remove1_subset [of x "rev xs"] by (simp add: remove_last_def)

lemma fold_remove_last_own: "distinct em \<Longrightarrow> fold remove_last em (B @ em) = B"
  by (induction em arbitrary: B) (simp_all add: remove_last_own)

lemma fold_remove_last_none: "set em \<inter> set B = {} \<Longrightarrow> fold remove_last em B = B"
  by (induction em arbitrary: B) (simp_all add: remove_last_notin)

lemma fold_remove_last_append:
  "set em' \<inter> set em = {} \<Longrightarrow> fold remove_last em' (B @ em) = fold remove_last em' B @ em"
  by (induction em' arbitrary: B) (simp_all add: remove_last_append_notin)

lemma set_fold_remove_last: "set (fold remove_last em B) \<subseteq> set B"
proof (induction em arbitrary: B)
  case Nil
  then show ?case by simp
next
  case (Cons a em)
  have "set (fold remove_last em (remove_last a B)) \<subseteq> set (remove_last a B)"
    by (rule Cons.IH)
  with set_remove_last [of a B] show ?case by auto
qed

lemma fold_off:
  "fold (\<lambda>(r', em) w'. if r' = r then off em w' else w') L w = w\<lparr>bus := unsubscribed r L (bus w)\<rparr>"
  by (induction L arbitrary: w) (auto simp: unsubscribed_def off_def)

lemma res_close_eq:
  "res_close r w = w\<lparr>close_listeners := filter (\<lambda>(r', em). r' \<noteq> r) (close_listeners w),
                     bus := unsubscribed r (close_listeners w) (bus w)\<rparr>"
  by (simp add: res_close_def fold_off)

lemma unsubscribed_none: "list_all (\<lambda>(r', em). r' \<noteq> r) L \<Longrightarrow> unsubscribed r L b = b"
  by (induction L arbitrary: b) (auto simp: unsubscribed_def)

lemma unsubscribed_append:
  "list_all (\<lambda>(r', em'). set em' \<inter> set em = {}) L \<Longrightarrow>
   unsubscribed r L (B @ em) = unsubscribed r L B @ em"
proof (induction L arbitrary: B)
  case Nil
  then show ?case by (simp add: unsubscribed_def)
next
  case (Cons a L)
  obtain r' em' where a: "a = (r', em')" by (cases a)
  from Cons.prems a have d: "set em' \<inter> set em = {}" and rest: "list_all (\<lambda>(r', em'). set em' \<inter> set em = {}) L"
    by simp_all
  have u: "\<And>b. unsubscribed r (a # L) b = unsubscribed r L (if r' = r then fold remove_last em' b else b)"
    by (simp add: unsubscribed_def a)
  show ?case
    using Cons.IH [OF rest] d by (simp add: u fold_remove_last_append)
qed

lemma set_unsubscribed: "set (unsubscribed r L b) \<subseteq> set b"
proof (induction L arbitrary: b)
  case Nil
  then show ?case by (simp add: unsubscribed_def)
next
  case (Cons a L)
  obtain r' em' where a: "a = (r', em')" by (cases a)
  have u: "unsubscribed r (a # L) b = unsubscribed r L (if r' = r then fold remove_last em' b else b)"
    by (simp add: unsubscribed_def a)
  show ?case
    unfolding u using Cons.IH [of "fold remove_last em' b"] Cons.IH [of b]
      set_fold_remove_last [of em' b] by auto
qed

lemma res_close_twice: "res_close r (res_close r w) = res_close r w"
proof -
  have "list_all (\<lambda>(r', em). r' \<noteq> r) (filter (\<lambda>(r', em). r' \<noteq> r) (close_listeners w))"
    by (simp add: list_all_iff)
  then show ?thesis
    by (simp add: res_close_eq unsubscribed_none)
qed

lemma subscribed_world:
  "snd (list_events (fst (sendList xs w)) c em (snd (sendList xs w)))
     = w\<lparr>streams := streams w @ [map Add xs @ [Init]], bus := bus w @ em,
          close_listeners := close_listeners w @ [(res c, em)]\<rparr>"
  by (simp add: sendList_eq list_events_eq)

lemma fresh_disjoint:
  "list_all (\<lambda>(n, cb). captured cb < k) B \<Longrightarrow> list_all (\<lambda>(n, cb). captured cb = k) em \<Longrightarrow>
   set em \<inter> set B = {}"
  by (fastforce simp: list_all_iff)

lemma fresh_disjoint_listeners:
  "list_all (\<lambda>(r, em'). list_all (\<lambda>(n, cb). captured cb < k) em') L \<Longrightarrow>
   list_all (\<lambda>(n, cb). captured cb = k) em \<Longrightarrow>
   list_all (\<lambda>(r', em'). set em' \<inter> set em = {}) L"
  by (fastforce simp: list_all_iff)

lemma closed_bus:
  assumes "closures_bound w" and "distinct em"
    and "list_all (\<lambda>(n, cb). captured cb = length (streams w)) em"
  shows "bus (res_close (res c) (snd (list_events (fst (sendList xs w)) c em (snd (sendList xs w)))))
           = bus (res_close (res c) w)"
proof -
  have "list_all (\<lambda>(r, em'). list_all (\<lambda>(n, cb). captured cb < length (streams w)) em')
          (close_listeners w)"
    using assms(1) by (simp add: closures_bound_def)
  then have d: "list_all (\<lambda>(r', em'). set em' \<inter> set em = {}) (close_listeners w)"
    using assms(3) by (rule fresh_disjoint_listeners)
  show ?thesis
    by (simp add: subscribed_world res_close_eq unsubscribed_def unsubscribed_append [OF d, unfolded unsubscribed_def]
        fold_remove_last_own [OF assms(2)])
qed

lemma silent_bus:
  assumes "closures_bound w" and "set b \<subseteq> set (bus w)"
  shows "frames_for (length (streams w)) b ev = []"
proof -
  have "list_all (\<lambda>(n, cb). captured cb < length (streams w)) b"
    using assms by (auto simp: closures_bound_def list_all_iff)
  then show ?thesis
    by (simp add: frames_for_others bound_others)
qed

lemma silent_emits:
  assumes "closures_bound w" and "set (bus w') \<subseteq> set (bus w)"
    and "length (streams w) < length (streams w')"
  shows "streams (emits evs w') ! length (streams w) = streams w' ! length (streams w)"
proof -
  have "frames_for (length (streams w)) (bus w') = (\<lambda>ev. [])"
    by (rule ext) (rule silent_bus [OF assms(1,2)])
  then show ?thesis
    using assms(3) by (simp add: emits_stream)
qed

text \<open>
  C5. For a list made by \<open>sendList\<close> and bound by \<open>events\<close> to an event map of
  closures over it: calling the unsubscribe function a second time changes nothing,
  and after the first call the bus is what it was before the binding, so each handler
  was deregistered once and no other registration was touched. The same holds when the
  \<^verbatim>\<open>close\<close> event of the response comes twice: the second one changes nothing, and
  the first one leaves the bus as the close of the response would have left it without
  this subscription. After either teardown no event changes the stream of the list.
\<close>

theorem teardown_once:
  assumes "closures_bound w" and "distinct em"
    and "list_all (\<lambda>(n, cb). captured cb = length (streams w)) em"
    and "w2 = snd (list_events (fst (sendList xs w)) c em (snd (sendList xs w)))"
  shows "off em (off em w2) = off em w2
       \<and> bus (off em w2) = bus w
       \<and> res_close (res c) (res_close (res c) w2) = res_close (res c) w2
       \<and> bus (res_close (res c) w2) = bus (res_close (res c) w)
       \<and> streams (emits evs (off em w2)) ! length (streams w) = streams w2 ! length (streams w)
       \<and> streams (emits evs (res_close (res c) w2)) ! length (streams w)
           = streams w2 ! length (streams w)"
proof -
  have w2: "w2 = w\<lparr>streams := streams w @ [map Add xs @ [Init]], bus := bus w @ em,
          close_listeners := close_listeners w @ [(res c, em)]\<rparr>"
    using assms(4) by (simp add: subscribed_world)
  have "list_all (\<lambda>(n, cb). captured cb < length (streams w)) (bus w)"
    using assms(1) by (simp add: closures_bound_def)
  then have fresh: "set em \<inter> set (bus w) = {}"
    using assms(3) by (rule fresh_disjoint)
  have b1: "bus (off em w2) = bus w"
    by (simp add: w2 off_def fold_remove_last_own [OF assms(2)])
  have once: "off em (off em w2) = off em w2"
    by (simp add: w2 off_def fold_remove_last_own [OF assms(2)] fold_remove_last_none [OF fresh])
  have b2: "bus (res_close (res c) w2) = bus (res_close (res c) w)"
    unfolding assms(4) by (rule closed_bus [OF assms(1,2,3)])
  have sub: "set (bus (res_close (res c) w2)) \<subseteq> set (bus w)"
    unfolding b2 by (simp add: res_close_eq set_unsubscribed)
  have s1: "streams (emits evs (off em w2)) ! length (streams w) = streams w2 ! length (streams w)"
    using silent_emits [OF assms(1), of "off em w2" evs] b1
    by (simp add: w2 off_def)
  have s2: "streams (emits evs (res_close (res c) w2)) ! length (streams w)
           = streams w2 ! length (streams w)"
    using silent_emits [OF assms(1) sub, of evs]
    by (simp add: w2 res_close_eq)
  from once b1 b2 s1 s2 show ?thesis
    by (simp add: res_close_twice)
qed

theorem teardown_once_witness:
  "closures_bound w1 \<and> distinct (connections_eventMap 0)
   \<and> bus (snd (get_connections p0 c0 w1)) = connections_eventMap 0
   \<and> bus (off (connections_eventMap 0) (off (connections_eventMap 0) (snd (get_connections p0 c0 w1)))) = []
   \<and> bus (res_close (res c0) (res_close (res c0) (snd (get_connections p0 c0 w1)))) = []
   \<and> streams (emits [connection conn1] (res_close (res c0) (snd (get_connections p0 c0 w1)))) ! 0
       = [Add (serializeConnection conn0 False), Init]"
proof -
  have h1: "closures_bound w1"
    by (simp add: closures_bound_def w1_def w0_def)
  have h2: "distinct (connections_eventMap 0)"
    by (simp add: connections_eventMap_def)
  have h3: "list_all (\<lambda>(n, cb). captured cb = length (streams w1)) (connections_eventMap 0)"
    by (simp add: connections_eventMap_def w1_def w0_def)
  have h4: "snd (get_connections p0 c0 w1)
     = snd (list_events (fst (sendList (map (\<lambda>c. serializeConnection c False) (connections w1)) w1))
          c0 (connections_eventMap 0)
          (snd (sendList (map (\<lambda>c. serializeConnection c False) (connections w1)) w1)))"
    by (simp add: get_connections_def sendList_eq w1_def w0_def)
  have b: "bus w1 = []" "streams w1 = []" "connections w1 = [conn0]"
    by (simp_all add: w1_def w0_def)
  have r: "bus (res_close (res c0) w1) = []"
    by (simp add: res_close_def w1_def w0_def)
  have s: "streams (snd (get_connections p0 c0 w1)) ! 0 = [Add (serializeConnection conn0 False), Init]"
    by (simp add: get_connections_def sendList_eq list_events_eq b)
  have g: "bus (snd (get_connections p0 c0 w1)) = connections_eventMap 0"
    by (simp add: get_connections_def sendList_eq list_events_eq b)
  from teardown_once [OF h1 h2 h3 h4, of "[connection conn1]"] h1 h2 g b r s show ?thesis
    by simp
qed

subsection \<open>Between the snapshot and the binding\<close>

text \<open>
  \<open>sendList\<close> and \<open>events\<close> are two calls. An event emitted between them would
  find no handler of the list on the bus and leave no frame; \<open>get_connections\<close> and
  \<open>get_plugins\<close> call one right after the other.
\<close>

lemma event_before_binding:
  assumes "closures_bound w"
  shows "streams (snd (list_events (length (streams w)) c em (emit ev (snd (sendList xs w)))))
           ! length (streams w) = map Add xs @ [Init]"
proof -
  have "frames_for (length (streams w)) (bus w) ev = []"
    using assms by (simp add: silent_bus)
  then show ?thesis
    by (simp add: sendList_eq list_events_eq emit_stream)
qed

text \<open>Subscribing and closing keep the closures bound as well.\<close>

lemma closures_bound_subscribe:
  assumes "closures_bound w" and "list_all (\<lambda>(n, cb). captured cb = length (streams w)) em"
  shows "closures_bound (snd (list_events (fst (sendList xs w)) c em (snd (sendList xs w))))"
  using assms unfolding subscribed_world closures_bound_def
  by (fastforce simp: list_all_iff less_Suc_eq)

lemma closures_bound_get_connections:
  "closures_bound w \<Longrightarrow> closures_bound (snd (get_connections p c w))"
  using closures_bound_subscribe [of w "connections_eventMap (length (streams w))"
      "map (\<lambda>c. serializeConnection c False) (connections w)" c]
  by (simp add: get_connections_def sendList_eq connections_eventMap_def)

lemma closures_bound_get_plugins:
  "closures_bound w \<Longrightarrow> closures_bound (snd (get_plugins p c w))"
  using closures_bound_subscribe [of w "plugins_eventMap (length (streams w))"
      "map serialize (plugins w) @ map JObj (available_plugins w)" c]
  by (simp add: get_plugins_def sendList_eq plugins_eventMap_def)

lemma closures_bound_res_close: "closures_bound w \<Longrightarrow> closures_bound (res_close r w)"
  using set_unsubscribed [of r "close_listeners w" "bus w"]
  by (auto simp: closures_bound_def res_close_eq list_all_iff)

lemma closures_bound_get_log: "closures_bound w \<Longrightarrow> closures_bound (snd (get_log p c w))"
  by (fastforce simp: closures_bound_def get_log_def new_Readable_def list_all_iff less_Suc_eq
      split: option.splits)

lemma closures_bound_on_line: "closures_bound w \<Longrightarrow> closures_bound (on_line c ret line w)"
  by (simp add: closures_bound_def on_line_def push_def)

lemma closures_bound_on_close:
  "closures_bound w \<Longrightarrow> ret < length (streams w) \<Longrightarrow> closures_bound (on_close c ret logger w)"
  by (simp add: closures_bound_def on_close_def onOff_def Let_def)

subsection \<open>A list whose consumer has gone\<close>

lemma list_ops_append:
  assumes "s < length (streams w)"
  shows "streams (list_add s x w) ! s = streams w ! s @ [Add x]"
    and "streams (list_remove s k w) ! s = streams w ! s @ [Remove k]"
    and "streams (list_update s k chg w) ! s = streams w ! s @ [Update k chg]"
  using assms by (simp_all add: list_add_def list_remove_def list_update_def push_def)

text \<open>
  C4, as stated, fails: \<open>add\<close>, \<open>remove\<close> and \<open>update\<close> push on the stream
  without looking at the state of the response. After the close of the response the
  stream of the list still takes the frame of an \<open>add\<close>.
\<close>

theorem detached_list_counterexample:
  "streams (res_close (res c0) (snd (get_connections p0 c0 w1))) ! 0
     = [Add (serializeConnection conn0 False), Init]
   \<and> bus (res_close (res c0) (snd (get_connections p0 c0 w1))) = []
   \<and> streams (list_add 0 (serializeConnection conn1 False)
        (res_close (res c0) (snd (get_connections p0 c0 w1)))) ! 0
     = [Add (serializeConnection conn0 False), Init, Add (serializeConnection conn1 False)]"
  by (simp add: get_connections_def sendList_eq list_events_eq res_close_def off_def
      remove_last_def connections_eventMap_def list_add_def push_def w1_def w0_def c0_def)

text \<open>
  C4, amended. After the close of the response of a list, a call of \<open>add\<close>,
  \<open>remove\<close> or \<open>update\<close> still appends its frame to the stream of the list: nothing
  is discarded there. What the close does is to run the unsubscribe function, so that
  no event of the bus calls the three functions for this list any more, and the stream
  stays as it is whatever events follow.
\<close>

theorem detached_list_appends:
  assumes "closures_bound w" and "distinct em"
    and "list_all (\<lambda>(n, cb). captured cb = length (streams w)) em"
    and "wd = res_close (res c) (snd (list_events (fst (sendList xs w)) c em (snd (sendList xs w))))"
  shows "streams (list_add (length (streams w)) x wd) ! length (streams w)
           = streams wd ! length (streams w) @ [Add x]
       \<and> streams (list_remove (length (streams w)) k wd) ! length (streams w)
           = streams wd ! length (streams w) @ [Remove k]
       \<and> streams (list_update (length (streams w)) k chg wd) ! length (streams w)
           = streams wd ! length (streams w) @ [Update k chg]
       \<and> streams (emits evs wd) ! length (streams w) = streams wd ! length (streams w)"
proof -
  have len: "length (streams w) < length (streams wd)"
    by (simp add: assms(4) subscribed_world res_close_eq)
  have "bus wd = bus (res_close (res c) w)"
    unfolding assms(4) by (rule closed_bus [OF assms(1,2,3)])
  then have sub: "set (bus wd) \<subseteq> set (bus w)"
    by (simp add: res_close_eq set_unsubscribed)
  from list_ops_append [OF len] silent_emits [OF assms(1) sub len] show ?thesis
    by simp
qed

theorem detached_list_appends_witness:
  "closures_bound w1 \<and> distinct (connections_eventMap 0)
   \<and> streams (list_remove 0 (serializeConnection conn0 True)
        (res_close (res c0) (snd (get_connections p0 c0 w1)))) ! 0
     = [Add (serializeConnection conn0 False), Init, Remove (serializeConnection conn0 True)]
   \<and> streams (emits [connectionClosed conn0]
        (res_close (res c0) (snd (get_connections p0 c0 w1)))) ! 0
     = [Add (serializeConnection conn0 False), Init]"
proof -
  have h1: "closures_bound w1"
    by (simp add: closures_bound_def w1_def w0_def)
  have h2: "distinct (connections_eventMap 0)"
    by (simp add: connections_eventMap_def)
  have h3: "list_all (\<lambda>(n, cb). captured cb = length (streams w1)) (connections_eventMap 0)"
    by (simp add: connections_eventMap_def w1_def w0_def)
  have h4: "res_close (res c0) (snd (get_connections p0 c0 w1))
     = res_close (res c0) (snd (list_events
          (fst (sendList (map (\<lambda>c. serializeConnection c False) (connections w1)) w1))
          c0 (connections_eventMap 0)
          (snd (sendList (map (\<lambda>c. serializeConnection c False) (connections w1)) w1))))"
    by (simp add: get_connections_def sendList_eq w1_def w0_def)
  have s: "streams (res_close (res c0) (snd (get_connections p0 c0 w1))) ! 0
     = [Add (serializeConnection conn0 False), Init]"
    by (simp add: get_connections_def sendList_eq list_events_eq res_close_eq w1_def w0_def)
  have l: "length (streams w1) = 0"
    by (simp add: w1_def w0_def)
  from detached_list_appends [OF h1 h2 h3 h4, of "serializeConnection conn1 False"
      "serializeConnection conn0 True" JNull "[connectionClosed conn0]"] h1 h2 s l
  show ?thesis by simp
qed

subsection \<open>Log lines\<close>

text \<open>A match has the whole line and seven captures, so that \<^verbatim>\<open>m[1]\<close> to \<^verbatim>\<open>m[7]\<close>
  exist.\<close>

lemma backtrack_captures:
  assumes "\<And>s' caps'. k s' = Some caps' \<Longrightarrow> length caps' = n"
    and "backtrack k cap s lo m = Some caps"
  shows "length caps = (if cap then Suc n else n)"
  using assms(2)
  by (induction m) (auto split: if_splits option.splits dest: assms(1))

lemma exec_toks_captures:
  "exec_toks ts s = Some caps \<Longrightarrow> length caps = length (filter capturing ts)"
proof (induction ts arbitrary: s caps)
  case Nil
  then show ?case by (simp split: if_splits)
next
  case (Cons t ts)
  show ?case
  proof (cases t)
    case (Lit l)
    with Cons show ?thesis
      by (auto split: if_splits)
  next
    case (Rep cap cls lo hi)
    with Cons.prems obtain m where bt: "backtrack (exec_toks ts) cap s lo m = Some caps"
      by auto
    have "length caps = (if cap then Suc (length (filter capturing ts))
                         else length (filter capturing ts))"
    proof (rule backtrack_captures [where k = "exec_toks ts" and s = s and lo = lo and m = m])
      show "\<And>s' caps'. exec_toks ts s' = Some caps' \<Longrightarrow>
              length caps' = length (filter capturing ts)"
        by (rule Cons.IH)
      show "backtrack (exec_toks ts) cap s lo m = Some caps"
        by (rule bt)
    qed
    then show ?thesis
      using Rep by simp
  qed
qed

lemma exec_length: "exec line = Some m \<Longrightarrow> length m = 8"
  by (auto simp: exec_def dest!: exec_toks_captures) (simp add: log_pattern_def)

text \<open>
  C10, as stated, fails once the request is aborted: a line that arrives then closes
  the input and pushes nothing, whether it matches the pattern or not.
\<close>

theorem log_line_aborted_counterexample:
  "exec ''hello'' = None
   \<and> fst (get_log (p0\<lparr>file_p := Some ''log''\<rparr>) c0 w_log) = Readable 0
   \<and> streams (on_line (c0\<lparr>aborted := True\<rparr>) 0 ''hello''
        (snd (get_log (p0\<lparr>file_p := Some ''log''\<rparr>) c0 w_log))) ! 0 = []
   \<and> inputs_closed (on_line (c0\<lparr>aborted := True\<rparr>) 0 ''hello''
        (snd (get_log (p0\<lparr>file_p := Some ''log''\<rparr>) c0 w_log))) = [0]"
  by (simp add: exec_def log_pattern_def dot_def get_log_def new_Readable_def on_line_def
      p0_def c0_def w_log_def w0_def)

text \<open>
  C10, amended. For a line of the log file that arrives while the request is not
  aborted, exactly one frame is pushed on the stream and nothing else changes:
  \<^verbatim>\<open>{add: null}\<close> when the line does not match the pattern, since \<open>parse\<close> gives
  \<^verbatim>\<open>null\<close> then, and otherwise \<^verbatim>\<open>{add: entry}\<close> with the entry of the fields \<^verbatim>\<open>ip\<close>,
  \<^verbatim>\<open>ts\<close>, \<^verbatim>\<open>method\<close>, \<^verbatim>\<open>uri\<close>, \<^verbatim>\<open>code\<close> and \<^verbatim>\<open>size\<close> taken from the captures. A
  line that arrives after the request was aborted closes the file input and pushes
  nothing: no stream changes.
\<close>

theorem log_line_frame:
  assumes "ret < length (streams w)"
  shows "(\<not> aborted c \<longrightarrow>
            on_line c ret line w
              = w\<lparr>streams := (streams w)[ret := streams w ! ret @ [Add (parse line)]]\<rparr>
            \<and> streams (on_line c ret line w) ! ret = streams w ! ret @ [Add (parse line)]
            \<and> inputs_closed (on_line c ret line w) = inputs_closed w)
       \<and> (aborted c \<longrightarrow>
            on_line c ret line w = w\<lparr>inputs_closed := ret # inputs_closed w\<rparr>
            \<and> streams (on_line c ret line w) = streams w
            \<and> ret \<in> set (inputs_closed (on_line c ret line w)))
       \<and> (exec line = None \<longrightarrow> parse line = JNull)
       \<and> (\<forall>m. exec line = Some m \<longrightarrow>
            length m = 8
            \<and> parse line = JObj
                [(''ip'', JStr (m ! 1)),
                 (''ts'', JDate (m ! 2 @ '' '' @ m ! 3)),
                 (''method'', JStr (m ! 4)),
                 (''uri'', JStr (m ! 5)),
                 (''code'', JNumber (m ! 6)),
                 (''size'', if m ! 7 = ''-'' then JUndefined else JNumber (m ! 7))])"
  using assms by (auto simp: on_line_def push_def parse_def exec_length)

lemma exec_line_ok:
  "exec line_ok = Some [line_ok, ''127.0.0.1'', ''01/Jan/2022'', ''10:00:00 +0000'', ''GET'',
     ''/a'', ''200'', ''-'']"
  unfolding line_ok_def by code_simp

theorem log_line_frame_witness:
  "streams (on_line c0 0 ''hello'' (snd (get_log (p0\<lparr>file_p := Some ''log''\<rparr>) c0 w_log))) ! 0
     = [Add JNull]
   \<and> streams (on_line c0 0 line_ok (snd (get_log (p0\<lparr>file_p := Some ''log''\<rparr>) c0 w_log))) ! 0
     = [Add (JObj [(''ip'', JStr ''127.0.0.1''), (''ts'', JDate ''01/Jan/2022 10:00:00 +0000''),
                   (''method'', JStr ''GET''), (''uri'', JStr ''/a''),
                   (''code'', JNumber ''200''), (''size'', JUndefined)])]
   \<and> on_line (c0\<lparr>aborted := True\<rparr>) 0 line_ok
        (snd (get_log (p0\<lparr>file_p := Some ''log''\<rparr>) c0 w_log))
     = w_log\<lparr>streams := [[]], inputs_closed := [0]\<rparr>"
proof -
  have g: "snd (get_log (p0\<lparr>file_p := Some ''log''\<rparr>) c0 w_log) = w_log\<lparr>streams := [[]]\<rparr>"
    by (simp add: get_log_def new_Readable_def p0_def w_log_def w0_def)
  have r: "0 < length (streams (w_log\<lparr>streams := [[]]\<rparr>))"
    by simp
  have a: "\<not> aborted c0" "aborted (c0\<lparr>aborted := True\<rparr>)"
    by (simp_all add: c0_def)
  have i: "inputs_closed w_log = []"
    by (simp add: w_log_def w0_def)
  have e1: "exec ''hello'' = None"
    by (simp add: exec_def log_pattern_def dot_def)
  from log_line_frame [OF r, of c0 "''hello''"] log_line_frame [OF r, of c0 line_ok]
    log_line_frame [OF r, of "c0\<lparr>aborted := True\<rparr>" line_ok]
    a e1 exec_line_ok i
  show ?thesis
    by (simp add: g)
qed

text \<open>The lines of a file, one after the other, for a request that is not aborted.\<close>

lemma on_lines_frames:
  assumes "ret < length (streams w)" and "\<not> aborted c"
  shows "streams (on_lines c ret lns w) ! ret = streams w ! ret @ map (\<lambda>l. Add (parse l)) lns"
  using assms(1)
proof (induction lns arbitrary: w)
  case Nil
  then show ?case by (simp add: on_lines_def)
next
  case (Cons l lns)
  have "ret < length (streams (on_line c ret l w))"
    using Cons.prems by (simp add: on_line_def push_def)
  from Cons.IH [OF this] Cons.prems assms(2) show ?case
    by (simp add: on_lines_def on_line_def push_def)
qed

end
